theory Spec2Isabelle
  imports Main "HOL-Library.AList"
begin

section \<open>Byte strings as Python 2 sees them\<close>

text \<open>
  The configuration files are read with \<^verbatim>\<open>open(fn)\<close> under Python 2, so every line is
  a \<^verbatim>\<open>str\<close>: a sequence of bytes. The methods used by \<^verbatim>\<open>pyzor/config.py\<close> are
  \<^verbatim>\<open>strip\<close>, \<^verbatim>\<open>lower\<close>, \<^verbatim>\<open>split(":")\<close>, \<^verbatim>\<open>split()\<close> and \<^verbatim>\<open>startswith\<close>.
  Whitespace is the six ASCII characters that \<^verbatim>\<open>str.isspace\<close> accepts, and \<^verbatim>\<open>lower\<close>
  maps only \<^verbatim>\<open>A\<close>..\<^verbatim>\<open>Z\<close> (the C locale).
\<close>

definition is_space :: "char \<Rightarrow> bool" where
  "is_space c \<longleftrightarrow> c \<in> {CHR '' '', CHR 0x09, CHR 0x0A, CHR 0x0B, CHR 0x0C, CHR 0x0D}"

definition ascii_uppercase :: string where
  "ascii_uppercase = ''ABCDEFGHIJKLMNOPQRSTUVWXYZ''"

definition ascii_lowercase :: string where
  "ascii_lowercase = ''abcdefghijklmnopqrstuvwxyz''"

definition is_upper :: "char \<Rightarrow> bool" where
  "is_upper c \<longleftrightarrow> c \<in> set ascii_uppercase"

definition lower_char :: "char \<Rightarrow> char" where
  "lower_char c =
     (case map_of (zip ascii_uppercase ascii_lowercase) c of None \<Rightarrow> c | Some d \<Rightarrow> d)"

definition lower :: "string \<Rightarrow> string" where
  "lower s = map lower_char s"

definition lstrip :: "string \<Rightarrow> string" where
  "lstrip s = dropWhile is_space s"

definition rstrip :: "string \<Rightarrow> string" where
  "rstrip s = rev (dropWhile is_space (rev s))"

definition strip :: "string \<Rightarrow> string" where
  "strip s = rstrip (lstrip s)"

text \<open>
  \<^verbatim>\<open>s.split(sep)\<close> with a one-character separator: a string with \<open>k\<close> separators yields
  \<open>k + 1\<close> parts, empty parts included; the empty string yields one empty part.
\<close>

fun split_sep :: "char \<Rightarrow> string \<Rightarrow> string list" where
  "split_sep sep [] = [[]]"
| "split_sep sep (c # cs) =
     (if c = sep then [] # split_sep sep cs
      else (case split_sep sep cs of
              [] \<Rightarrow> [[c]]
            | p # ps \<Rightarrow> (c # p) # ps))"

text \<open>
  \<^verbatim>\<open>s.split()\<close> without a separator: the maximal runs of non-whitespace characters, in
  order. The first argument of the helper is the token being read, reversed.
\<close>

fun split_ws_from :: "string \<Rightarrow> string \<Rightarrow> string list" where
  "split_ws_from cur [] = (if cur = [] then [] else [rev cur])"
| "split_ws_from cur (c # cs) =
     (if is_space c
      then (if cur = [] then split_ws_from [] cs else rev cur # split_ws_from [] cs)
      else split_ws_from (c # cur) cs)"

definition split_ws :: "string \<Rightarrow> string list" where
  "split_ws s = split_ws_from [] s"

lemmas str_eval =
  is_space_def ascii_uppercase_def ascii_lowercase_def is_upper_def lower_char_def lower_def
  lstrip_def rstrip_def strip_def split_ws_def

section \<open>Server configuration: the access file\<close>

text \<open>
  A file is \<open>None\<close> when \<^verbatim>\<open>os.path.exists\<close> is false and otherwise the list of its
  lines, each with its terminator \<open>\<newline>\<close> (the last line may lack it), as
  \<^verbatim>\<open>for line in open(fn)\<close> yields them.

  A Python \<^verbatim>\<open>dict\<close> with string keys is an association list with distinct keys, updated
  by \<^const>\<open>AList.update\<close>; iterating over it yields its keys.

  The ACL is a \<^verbatim>\<open>collections.defaultdict(set)\<close>: a partial map from user names to sets of
  permissions in which reading a missing key gives the empty set, and in which
  \<^verbatim>\<open>acl[user].update(..)\<close> and \<^verbatim>\<open>acl[user].difference_update(..)\<close> both leave an entry
  for \<^verbatim>\<open>user\<close> behind. The logger calls of \<^verbatim>\<open>load_access_file\<close> do not influence
  the value it returns and are left out of its model.
\<close>

type_synonym text_file = "string list option"

type_synonym acl = "string \<rightharpoonup> string set"

definition acl_get :: "acl \<Rightarrow> string \<Rightarrow> string set" where
  "acl_get acl user = (case acl user of None \<Rightarrow> {} | Some s \<Rightarrow> s)"

text \<open>
  Modelled from the spec: the constant \<^verbatim>\<open>pyzor.anonymous_user\<close> is defined in the package's
  \<^verbatim>\<open>__init__\<close> module, which is not among the sources. The spec names the special user
  \<^verbatim>\<open>anonymous\<close>, as does the docstring of \<^verbatim>\<open>load_access_file\<close>.
\<close>

definition anonymous_user :: string where
  "anonymous_user = ''anonymous''"

definition default_operations :: "string list" where
  "default_operations = [''check'', ''report'', ''ping'', ''pong'', ''info'']"

definition all_operations :: "string list" where
  "all_operations = [''check'', ''report'', ''ping'', ''pong'', ''info'', ''whitelist'']"

text \<open>The lookup \<^verbatim>\<open>{"allow": True, "deny": False}[allowed]\<close>; \<open>None\<close> is its KeyError.\<close>

definition allow_deny :: "string \<Rightarrow> bool option" where
  "allow_deny allowed =
     (if allowed = ''allow'' then Some True
      else if allowed = ''deny'' then Some False
      else None)"

text \<open>The body of \<^verbatim>\<open>for user in users\<close>.\<close>

definition apply_user :: "bool \<Rightarrow> string list \<Rightarrow> string \<Rightarrow> acl \<Rightarrow> acl" where
  "apply_user allowed operations user acl =
     (if allowed then acl(user \<mapsto> acl_get acl user \<union> set operations)
      else acl(user \<mapsto> acl_get acl user - set operations))"

text \<open>
  The head of the body of \<^verbatim>\<open>for line in open(access_fn)\<close>, up to the lookup of
  \<^verbatim>\<open>allowed\<close>: the three lower-cased, stripped fields of a line and its verdict, or
  \<open>None\<close> where the loop runs into one of its \<^verbatim>\<open>continue\<close> statements (a blank line, a
  comment, a ValueError from unpacking anything but three parts, a KeyError for a last
  field that is neither \<^verbatim>\<open>allow\<close> nor \<^verbatim>\<open>deny\<close>). \<^verbatim>\<open>line[0]\<close> is read only when
  \<^verbatim>\<open>line.strip()\<close> is not empty, so the line has a first character.
\<close>

definition access_rule :: "string \<Rightarrow> (string \<times> string \<times> bool) option" where
  "access_rule line =
     (if strip line = [] then None
      else if hd line = CHR ''#'' then None
      else (case map (\<lambda>part. strip (lower part)) (split_sep CHR '':'' line) of
              [operations, users, allowed] \<Rightarrow>
                (case allow_deny allowed of
                   None \<Rightarrow> None
                 | Some allowed \<Rightarrow> Some (operations, users, allowed))
            | _ \<Rightarrow> None))"

text \<open>The two expansions of the keyword \<^verbatim>\<open>all\<close> (lines 64 to 73 of the source).\<close>

definition expand_operations :: "string \<Rightarrow> string list" where
  "expand_operations operations =
     (if operations = ''all'' then all_operations
      else map strip (split_ws operations))"

definition expand_users :: "(string \<times> string) list \<Rightarrow> string \<Rightarrow> string list" where
  "expand_users accounts users =
     (if users = ''all'' then map fst accounts
      else map strip (split_ws users))"

text \<open>The whole body of the loop: a skipped line leaves the ACL as it is.\<close>

definition access_line :: "(string \<times> string) list \<Rightarrow> string \<Rightarrow> acl \<Rightarrow> acl" where
  "access_line accounts line acl =
     (case access_rule line of
        None \<Rightarrow> acl
      | Some (operations, users, allowed) \<Rightarrow>
          fold (apply_user allowed (expand_operations operations))
            (expand_users accounts users) acl)"

fun load_access_file :: "text_file \<Rightarrow> (string \<times> string) list \<Rightarrow> acl" where
  "load_access_file None accounts = [anonymous_user \<mapsto> set default_operations]"
| "load_access_file (Some lines) accounts = fold (access_line accounts) lines Map.empty"

text \<open>
  Modelled from the spec: the server's permission check is not among the sources. The spec
  gives \<^verbatim>\<open>query(acl, username, command)\<close> as membership of \<^verbatim>\<open>command\<close> in
  \<^verbatim>\<open>acl[username]\<close>, false for a user the ACL does not hold.
\<close>

definition query :: "acl \<Rightarrow> string \<Rightarrow> string \<Rightarrow> bool" where
  "query acl username command \<longleftrightarrow> command \<in> acl_get acl username"

text \<open>
  What one line says about a user and a command: its verdict where the line is a rule that
  lists both, \<open>None\<close> where it is skipped or lists only one of them.
\<close>

definition decision ::
  "(string \<times> string) list \<Rightarrow> string \<Rightarrow> string \<Rightarrow> string \<Rightarrow> bool option" where
  "decision accounts line user command =
     (case access_rule line of
        None \<Rightarrow> None
      | Some (operations, users, allowed) \<Rightarrow>
          if user \<in> set (expand_users accounts users)
             \<and> command \<in> set (expand_operations operations)
          then Some allowed else None)"

section \<open>Server configuration: the accounts file\<close>

text \<open>
  What the loaders write to their logger is kept as a list of records: the level, the format
  string and the arguments of each call, in the order of the calls.
\<close>

datatype exn = ValueError | KeyError | OtherError

datatype level = DEBUG | INFO | WARN

datatype log_arg = Text string | Number nat | Raised exn

type_synonym log_record = "level \<times> string \<times> log_arg list"

text \<open>\<^verbatim>\<open>sep.join(parts)\<close>.\<close>

fun join :: "string \<Rightarrow> string list \<Rightarrow> string" where
  "join sep [] = []"
| "join sep [p] = p"
| "join sep (p # q # ps) = p @ sep @ join sep (q # ps)"

text \<open>
  The head of the body of \<^verbatim>\<open>for line in open(passwd_fn)\<close>: \<open>None\<close> for a line the loop
  passes over in silence (blank, or a comment), \<open>Some (Inl ValueError)\<close> where the unpacking
  \<^verbatim>\<open>user, key = line.split(":")\<close> raises because there are not exactly two parts, and
  otherwise the stripped user name and key. No field is lower-cased here.
\<close>

definition passwd_entry :: "string \<Rightarrow> (exn + string \<times> string) option" where
  "passwd_entry line =
     (if strip line = [] then None
      else if hd line = CHR ''#'' then None
      else (case split_sep CHR '':'' line of
              [user, key] \<Rightarrow> Some (Inr (strip user, strip key))
            | _ \<Rightarrow> Some (Inl ValueError)))"

text \<open>
  The whole body: the \<^verbatim>\<open>except ValueError\<close> clause warns and continues with the next line,
  any other exception would leave the function (none is raised here), and a line with two
  parts stores \<^verbatim>\<open>accounts[user] = key\<close>.
\<close>

definition passwd_line ::
  "string \<Rightarrow> (string \<times> string) list \<times> log_record list
     \<Rightarrow> exn + (string \<times> string) list \<times> log_record list" where
  "passwd_line line st =
     (case st of (accounts, log) \<Rightarrow>
        (case passwd_entry line of
           None \<Rightarrow> Inr (accounts, log)
         | Some (Inl ValueError) \<Rightarrow>
             Inr (accounts, log @ [(WARN, ''Invalid accounts line: %r'', [Text line])])
         | Some (Inl e) \<Rightarrow> Inl e
         | Some (Inr (user, key)) \<Rightarrow>
             Inr (AList.update user key accounts,
                  log @ [(DEBUG, ''Creating an account for %s with key %s.'',
                          [Text user, Text key])])))"

text \<open>A \<^verbatim>\<open>for\<close> loop whose body may raise: the first exception ends the loop.\<close>

fun for_each :: "('a \<Rightarrow> 's \<Rightarrow> exn + 's) \<Rightarrow> 'a list \<Rightarrow> 's \<Rightarrow> exn + 's" where
  "for_each body [] s = Inr s"
| "for_each body (x # xs) s =
     (case body x s of Inl e \<Rightarrow> Inl e | Inr s' \<Rightarrow> for_each body xs s')"

fun load_passwd_file :: "text_file \<Rightarrow> exn + (string \<times> string) list \<times> log_record list" where
  "load_passwd_file None =
     Inr ([], [(INFO, ''Accounts file does not exist - only the anonymous user will be available.'',
                [])])"
| "load_passwd_file (Some lines) =
     (case for_each passwd_line lines ([], []) of
        Inl e \<Rightarrow> Inl e
      | Inr (accounts, log) \<Rightarrow>
          Inr (accounts, log @ [(INFO, ''Accounts: %s'', [Text (join '','' (map fst accounts))])]))"

text \<open>
  Two notions for the statements below, both read off \<^const>\<open>passwd_entry\<close>: the
  (user, key) pairs of the lines that have two parts, in file order, and the lines on which
  the unpacking fails.
\<close>

fun entries :: "string list \<Rightarrow> (string \<times> string) list" where
  "entries [] = []"
| "entries (l # ls) =
     (case passwd_entry l of Some (Inr e) \<Rightarrow> e # entries ls | _ \<Rightarrow> entries ls)"


section \<open>Client configuration: the accounts file\<close>

text \<open>
  \<^verbatim>\<open>int(s)\<close> on a \<^verbatim>\<open>str\<close>: surrounding whitespace, an optional sign and one or more
  decimal digits; \<open>None\<close> is its ValueError.
\<close>

definition digit_val :: "char \<Rightarrow> nat option" where
  "digit_val c = map_of (zip ''0123456789'' [0, 1, 2, 3, 4, 5, 6, 7, 8, 9]) c"

definition parse_nat :: "string \<Rightarrow> nat option" where
  "parse_nat s =
     (if s = [] then None
      else fold (\<lambda>c r. case (r, digit_val c) of
                          (Some n, Some d) \<Rightarrow> Some (10 * n + d)
                        | _ \<Rightarrow> None) s (Some 0))"

definition py_int :: "string \<Rightarrow> int option" where
  "py_int s =
     (case strip s of
        [] \<Rightarrow> None
      | c # cs \<Rightarrow>
          if c = CHR ''-'' then map_option (\<lambda>n. - int n) (parse_nat cs)
          else if c = CHR ''+'' then map_option int (parse_nat cs)
          else map_option int (parse_nat (c # cs)))"

text \<open>
  The module \<^verbatim>\<open>pyzor.account\<close> is not among the sources. \<^verbatim>\<open>load_accounts\<close> calls its
  \<^verbatim>\<open>key_from_hexstr\<close> and its \<^verbatim>\<open>Account\<close> constructor and tests the truth values of the salt
  and the key; these four are parameters of the model. Either call may raise.
\<close>

record ('s, 'k, 'a) account_module =
  key_from_hexstr :: "string \<Rightarrow> exn + 's \<times> 'k"
  salt_true :: "'s \<Rightarrow> bool"
  key_true :: "'k \<Rightarrow> bool"
  Account :: "string \<Rightarrow> 's \<Rightarrow> 'k \<Rightarrow> exn + 'a"

text \<open>
  The variable \<^verbatim>\<open>port\<close> after the \<^verbatim>\<open>try\<close> that converts it: the integer, or, since the
  \<^verbatim>\<open>except\<close> clause only warns, still the string.
\<close>

datatype port = PortInt int | PortStr string

text \<open>The unpacking \<^verbatim>\<open>host, port, username, key = [...]\<close>; \<open>None\<close> is its ValueError.\<close>

fun unpack4 :: "'a list \<Rightarrow> ('a \<times> 'a \<times> 'a \<times> 'a) option" where
  "unpack4 [a, b, c, d] = Some (a, b, c, d)"
| "unpack4 _ = None"

text \<open>
  The body of \<^verbatim>\<open>for lineno, orig_line in enumerate(open(filename))\<close>, statement by
  statement. Only the first, the third and the fourth warning are followed by
  \<^verbatim>\<open>continue\<close> or end the body; after the warning for the port the body goes on.
\<close>

definition accounts_line ::
  "('s, 'k, 'a) account_module \<Rightarrow> nat \<times> string
     \<Rightarrow> ((string \<times> port) \<times> 'a) list \<times> log_record list
     \<Rightarrow> exn + ((string \<times> port) \<times> 'a) list \<times> log_record list" where
  "accounts_line m numbered st =
     (case (numbered, st) of ((lineno, orig_line), (accounts, log)) \<Rightarrow>
        let line = strip orig_line in
        if line = [] \<or> take 1 line = ''#'' then Inr (accounts, log)
        else (case unpack4 (map strip (split_sep CHR '':'' line)) of
          None \<Rightarrow>
            Inr (accounts,
                 log @ [(WARN, ''account file: invalid line %d: wrong number of parts'',
                         [Number lineno])])
        | Some (host, port_field, username, key_field) \<Rightarrow>
            let (port, log) =
                  (case py_int port_field of
                     Some n \<Rightarrow> (PortInt n, log)
                   | None \<Rightarrow>
                       (PortStr port_field,
                        log @ [(WARN, ''account file: invalid line %d: %s'',
                                [Number lineno, Raised ValueError])]));
                address = (host, port)
            in (case key_from_hexstr m key_field of
                  Inl e \<Rightarrow> Inl e
                | Inr (salt, key) \<Rightarrow>
                    if \<not> salt_true m salt \<and> \<not> key_true m key
                    then Inr (accounts,
                              log @ [(WARN, ''account file: invalid line %d: keystuff can't be all None's'',
                                      [Number lineno])])
                    else (case Account m username salt key of
                            Inr account \<Rightarrow> Inr (AList.update address account accounts, log)
                          | Inl ValueError \<Rightarrow>
                              Inr (accounts,
                                   log @ [(WARN, ''account file: invalid line %d: %s'',
                                           [Number lineno, Raised ValueError])])
                          | Inl e \<Rightarrow> Inl e))))"

fun load_accounts ::
  "('s, 'k, 'a) account_module \<Rightarrow> text_file
     \<Rightarrow> exn + ((string \<times> port) \<times> 'a) list \<times> log_record list" where
  "load_accounts m None =
     Inr ([], [(WARN, ''No accounts are setup.  All commands will be executed by the anonymous user.'',
                [])])"
| "load_accounts m (Some lines) = for_each (accounts_line m) (enumerate 0 lines) ([], [])"

text \<open>
  Modelled from the spec: a stand-in for the missing module \<^verbatim>\<open>pyzor.account\<close>, on which the
  loader can be run. The docstring of \<^verbatim>\<open>load_accounts\<close> gives the last field of a line as
  \<^verbatim>\<open>salt,key\<close>, and the spec has it decode into a (salt, key) pair of which not both may be
  empty. Salt and key are kept as the text between the commas; an account is its user name
  with its salt and key, and building one does not fail.
\<close>

definition spec_account_module :: "(string, string, string \<times> string \<times> string) account_module" where
  "spec_account_module =
     \<lparr>key_from_hexstr =
        (\<lambda>s. case split_sep CHR '','' s of
                [salt, key] \<Rightarrow> Inr (salt, key)
              | _ \<Rightarrow> Inl ValueError),
      salt_true = (\<lambda>salt. salt \<noteq> []),
      key_true = (\<lambda>key. key \<noteq> []),
      Account = (\<lambda>username salt key. Inr (username, salt, key))\<rparr>"

section \<open>The record codec and the digest store\<close>

text \<open>
  The engine module \<^verbatim>\<open>pyzor.engines.gdbm_\<close> and the class \<^verbatim>\<open>pyzor.engines.common.Record\<close>
  are not among the sources; only their test is. A record has the six fields the test reads.
  Counts are natural numbers. The codec is written over any representation \<open>'t\<close> of a
  timestamp together with its textual form, a pair of a printer and a parser. The test stores
  \<^verbatim>\<open>datetime\<close> objects, which \<^verbatim>\<open>%s\<close> prints with \<^verbatim>\<open>str\<close>; the sweep, which the spec
  states with a subtraction, reads timestamps as seconds on a discrete time line.
\<close>

record 't Record =
  r_count :: nat
  r_entered :: 't
  r_updated :: 't
  wl_count :: nat
  wl_entered :: 't
  wl_updated :: 't

record 't timestamp_format =
  print_ts :: "'t \<Rightarrow> string"
  parse_ts :: "string \<Rightarrow> 't option"

text \<open>Decimal digits of a natural number, as \<^verbatim>\<open>"%s" % n\<close> prints them.\<close>

definition digit_char :: "nat \<Rightarrow> char" where
  "digit_char d = ''0123456789'' ! d"

fun show_nat :: "nat \<Rightarrow> string" where
  "show_nat n = (if n < 10 then [digit_char n] else show_nat (n div 10) @ [digit_char (n mod 10)])"

declare show_nat.simps [simp del]

text \<open>
  The stored value, as \<^verbatim>\<open>record_as_str\<close> of the test builds it and as
  \<^verbatim>\<open>test_set_item\<close> expects the handle to store it:
  \<^verbatim>\<open>"1,%s,%s,%s,%s,%s,%s" % (r_count, r_entered, r_updated, wl_count, wl_entered, wl_updated)\<close>.
\<close>

definition encode :: "'t timestamp_format \<Rightarrow> 't Record \<Rightarrow> string" where
  "encode f r =
     ''1,'' @ show_nat (r_count r) @ '','' @ print_ts f (r_entered r) @ '','' @
     print_ts f (r_updated r) @ '','' @ show_nat (wl_count r) @ '','' @
     print_ts f (wl_entered r) @ '','' @ print_ts f (wl_updated r)"

text \<open>
  Modelled from the spec: the decoder of \<^verbatim>\<open>pyzor.engines.gdbm_\<close> is missing. The spec makes
  \<^verbatim>\<open>decode\<close> the inverse of \<^verbatim>\<open>encode\<close>, failing with a DecodeError when the version marker
  is not recognized, when the field count is wrong, or when a field does not parse as its type.
\<close>

datatype decode_error = DecodeError

definition decode :: "'t timestamp_format \<Rightarrow> string \<Rightarrow> decode_error + 't Record" where
  "decode f s =
     (case split_sep CHR '','' s of
        [version, rc, re, ru, wc, we, wu] \<Rightarrow>
          if version \<noteq> ''1'' then Inl DecodeError
          else (case (parse_nat rc, parse_ts f re, parse_ts f ru,
                      parse_nat wc, parse_ts f we, parse_ts f wu) of
                  (Some rc', Some re', Some ru', Some wc', Some we', Some wu') \<Rightarrow>
                    Inr \<lparr>r_count = rc', r_entered = re', r_updated = ru',
                         wl_count = wc', wl_entered = we', wl_updated = wu'\<rparr>
                | _ \<Rightarrow> Inl DecodeError)
      | _ \<Rightarrow> Inl DecodeError)"

text \<open>
  The timestamps of the test are \<^verbatim>\<open>datetime\<close> objects without a time zone. Python builds
  one only from fields in range: years 1 to 9999, a day that the month has, and a time of
  day to the microsecond.
\<close>

record datetime =
  year :: nat
  month :: nat
  day :: nat
  hour :: nat
  minute :: nat
  second :: nat
  microsecond :: nat

definition is_leap :: "nat \<Rightarrow> bool" where
  "is_leap y \<longleftrightarrow> y mod 4 = 0 \<and> (y mod 100 \<noteq> 0 \<or> y mod 400 = 0)"

definition days_in_month :: "nat \<Rightarrow> nat \<Rightarrow> nat" where
  "days_in_month y m =
     (if m = 2 then (if is_leap y then 29 else 28)
      else if m \<in> {4, 6, 9, 11} then 30
      else 31)"

definition valid_datetime :: "datetime \<Rightarrow> bool" where
  "valid_datetime d \<longleftrightarrow>
     1 \<le> year d \<and> year d \<le> 9999 \<and> 1 \<le> month d \<and> month d \<le> 12 \<and>
     1 \<le> day d \<and> day d \<le> days_in_month (year d) (month d) \<and>
     hour d < 24 \<and> minute d < 60 \<and> second d < 60 \<and> microsecond d < 1000000"

text \<open>
  \<^verbatim>\<open>"%s" % d\<close> is \<^verbatim>\<open>str(d)\<close>, for a \<^verbatim>\<open>datetime\<close> the ISO form with a space:
  \<^verbatim>\<open>"%04d-%02d-%02d %02d:%02d:%02d"\<close>, followed by \<^verbatim>\<open>".%06d"\<close> of the microseconds unless
  they are zero.
\<close>

definition zero_pad :: "nat \<Rightarrow> nat \<Rightarrow> string" where
  "zero_pad w n = replicate (w - length (show_nat n)) CHR ''0'' @ show_nat n"

definition str_datetime :: "datetime \<Rightarrow> string" where
  "str_datetime d =
     zero_pad 4 (year d) @ ''-'' @ zero_pad 2 (month d) @ ''-'' @ zero_pad 2 (day d) @ '' '' @
     zero_pad 2 (hour d) @ '':'' @ zero_pad 2 (minute d) @ '':'' @ zero_pad 2 (second d) @
     (if microsecond d = 0 then [] else ''.'' @ zero_pad 6 (microsecond d))"

text \<open>
  Modelled from the spec: the decoder of a timestamp is missing with the engine. As the
  inverse of the printer it reads the fields at their printed widths, with or without the
  fraction, and accepts only what is a \<^verbatim>\<open>datetime\<close>.
\<close>

definition digits :: "nat \<Rightarrow> string \<Rightarrow> nat option" where
  "digits w s = (if length s = w then parse_nat s else None)"

definition parse_datetime :: "string \<Rightarrow> datetime option" where
  "parse_datetime s =
     (case split_sep CHR '' '' s of
        [date, time] \<Rightarrow>
          (case (split_sep CHR ''-'' date, split_sep CHR ''.'' time) of
             ([y, m, d], hms # fraction) \<Rightarrow>
               (case (split_sep CHR '':'' hms,
                      (case fraction of
                         [] \<Rightarrow> Some 0
                       | [f] \<Rightarrow> digits 6 f
                       | _ \<Rightarrow> None)) of
                  ([h, mi, sec], Some us) \<Rightarrow>
                    (case (digits 4 y, digits 2 m, digits 2 d,
                           digits 2 h, digits 2 mi, digits 2 sec) of
                       (Some y', Some m', Some d', Some h', Some mi', Some sec') \<Rightarrow>
                         let dt = \<lparr>year = y', month = m', day = d', hour = h',
                                   minute = mi', second = sec', microsecond = us\<rparr>
                         in if valid_datetime dt then Some dt else None
                     | _ \<Rightarrow> None)
                | _ \<Rightarrow> None)
           | _ \<Rightarrow> None)
      | _ \<Rightarrow> None)"

definition datetime_text :: "datetime timestamp_format" where
  "datetime_text = \<lparr>print_ts = str_datetime, parse_ts = parse_datetime\<rparr>"

text \<open>A record as the engine holds it: each of its four timestamps is a \<^verbatim>\<open>datetime\<close>.\<close>

definition valid_record :: "datetime Record \<Rightarrow> bool" where
  "valid_record r \<longleftrightarrow>
     valid_datetime (r_entered r) \<and> valid_datetime (r_updated r) \<and>
     valid_datetime (wl_entered r) \<and> valid_datetime (wl_updated r)"

text \<open>
  A record like the one the test sets up: 24 reports, 42 whitelistings, entered ten and
  twenty days before and updated two and three days before; the last timestamp falls on a
  full second.
\<close>

definition test_record :: "datetime Record" where
  "test_record =
     \<lparr>r_count = 24,
      r_entered = \<lparr>year = 2013, month = 5, day = 10, hour = 9, minute = 15, second = 2,
                   microsecond = 123\<rparr>,
      r_updated = \<lparr>year = 2013, month = 5, day = 18, hour = 9, minute = 15, second = 2,
                   microsecond = 123\<rparr>,
      wl_count = 42,
      wl_entered = \<lparr>year = 2013, month = 4, day = 30, hour = 9, minute = 15, second = 2,
                    microsecond = 123\<rparr>,
      wl_updated = \<lparr>year = 2013, month = 5, day = 17, hour = 23, minute = 0, second = 59,
                    microsecond = 0\<rparr>\<rparr>"

text \<open>
  Modelled from the spec: the store and its eviction sweep are missing too. The backend maps
  digest keys to stored values. One pass of the sweep iterates every key, decodes its record
  and deletes the key if \<^verbatim>\<open>now - max(reportUpdated, whitelistUpdated) > maxAgeSeconds\<close>; a
  value that does not decode is logged and the pass goes on with the next key. No pass is
  scheduled when \<^verbatim>\<open>maxAgeSeconds\<close> is absent or not positive.
\<close>

type_synonym backend = "(string \<times> string) list"

definition stale :: "int \<Rightarrow> int \<Rightarrow> int Record \<Rightarrow> bool" where
  "stale now max_age r \<longleftrightarrow> now - max (r_updated r) (wl_updated r) > max_age"

definition sweep_key :: "int timestamp_format \<Rightarrow> int \<Rightarrow> int \<Rightarrow> string \<Rightarrow> backend \<Rightarrow> backend" where
  "sweep_key f now max_age k db =
     (case map_of db k of
        None \<Rightarrow> db
      | Some raw \<Rightarrow>
          (case decode f raw of
             Inl e \<Rightarrow> db
           | Inr r \<Rightarrow> if stale now max_age r then AList.delete k db else db))"

definition sweep :: "int timestamp_format \<Rightarrow> int \<Rightarrow> int \<Rightarrow> backend \<Rightarrow> backend" where
  "sweep f now max_age db = fold (sweep_key f now max_age) (map fst db) db"

definition start_reorganizing ::
  "int timestamp_format \<Rightarrow> int \<Rightarrow> int option \<Rightarrow> backend \<Rightarrow> backend" where
  "start_reorganizing f now max_age db =
     (case max_age of
        None \<Rightarrow> db
      | Some m \<Rightarrow> if m \<le> 0 then db else sweep f now m db)"

text \<open>
  The value a sweep over the backend \<open>db\<close> removes: one that decodes to a stale record.
\<close>

definition doomed :: "int timestamp_format \<Rightarrow> int \<Rightarrow> int \<Rightarrow> backend \<Rightarrow> string \<Rightarrow> bool" where
  "doomed f now max_age db k =
     (case map_of db k of
        None \<Rightarrow> False
      | Some raw \<Rightarrow> (case decode f raw of Inl e \<Rightarrow> False | Inr r \<Rightarrow> stale now max_age r))"

text \<open>
  A timestamp format to run the codec on: non-negative seconds in decimal digits. With it,
  the record of the test: reported 24 times, entered ten days and updated two days before
  second 2000000, whitelisted 42 times, entered twenty days and updated three days before.
\<close>

definition decimal_seconds :: "int timestamp_format" where
  "decimal_seconds =
     \<lparr>print_ts = (\<lambda>t. show_nat (nat t)),
      parse_ts = (\<lambda>s. map_option int (parse_nat s))\<rparr>"

definition sample_record :: "int Record" where
  "sample_record =
     \<lparr>r_count = 24, r_entered = 1136000, r_updated = 1827200,
      wl_count = 42, wl_entered = 272000, wl_updated = 1740800\<rparr>"

section \<open>Properties of the string operations\<close>

lemma fold_apply_user:
  "fold (apply_user allowed ops) users acl u =
     (if u \<in> set users
      then Some (if allowed then acl_get acl u \<union> set ops else acl_get acl u - set ops)
      else acl u)"
proof (induction users arbitrary: acl)
  case Nil
  then show ?case by simp
next
  case (Cons x xs)
  have "fold (apply_user allowed ops) (x # xs) acl u =
        fold (apply_user allowed ops) xs (apply_user allowed ops x acl) u"
    by simp
  also have "\<dots> =
     (if u \<in> set xs
      then Some (if allowed then acl_get (apply_user allowed ops x acl) u \<union> set ops
                 else acl_get (apply_user allowed ops x acl) u - set ops)
      else apply_user allowed ops x acl u)"
    by (rule Cons.IH)
  also have "\<dots> =
     (if u \<in> set (x # xs)
      then Some (if allowed then acl_get acl u \<union> set ops else acl_get acl u - set ops)
      else acl u)"
    by (auto simp: apply_user_def acl_get_def)
  finally show ?case .
qed

lemma query_access_line:
  "query (access_line accounts line acl) u c =
     (case decision accounts line u c of None \<Rightarrow> query acl u c | Some a \<Rightarrow> a)"
  by (auto simp: access_line_def decision_def query_def fold_apply_user acl_get_def split: option.splits)

lemma query_fold_untouched:
  "\<forall>l \<in> set ls. decision accounts l u c = None \<Longrightarrow>
   query (fold (access_line accounts) ls acl) u c = query acl u c"
  by (induction ls arbitrary: acl) (simp_all add: query_access_line)

lemma split_ws_from_tokens:
  "t \<in> set (split_ws_from cur s) \<Longrightarrow> t \<noteq> [] \<and> set t \<subseteq> set cur \<union> {c \<in> set s. \<not> is_space c}"
  by (induction cur s rule: split_ws_from.induct) (auto split: if_splits)

lemma split_ws_tokens:
  "t \<in> set (split_ws s) \<Longrightarrow> t \<noteq> [] \<and> set t \<subseteq> {c \<in> set s. \<not> is_space c}"
  using split_ws_from_tokens [of t "[]" s] by (simp add: split_ws_def)

lemma dropWhile_none: "\<forall>c \<in> set t. \<not> P c \<Longrightarrow> dropWhile P t = t"
  by (cases t) simp_all

lemma strip_no_space: "\<forall>c \<in> set t. \<not> is_space c \<Longrightarrow> strip t = t"
  by (simp add: strip_def lstrip_def rstrip_def dropWhile_none)

lemma map_strip_split_ws: "map strip (split_ws s) = split_ws s"
  by (rule map_idI) (use split_ws_tokens strip_no_space in blast)

lemma set_strip: "set (strip s) \<subseteq> set s"
  unfolding strip_def lstrip_def rstrip_def
  by (metis set_dropWhileD set_rev subsetI)

lemma lower_char_not_upper: "\<not> is_upper (lower_char c)"
  unfolding lower_char_def is_upper_def
  by (auto split: option.splits simp: map_of_eq_None_iff ascii_uppercase_def ascii_lowercase_def
      dest!: map_of_SomeD set_zip_rightD)

lemma lower_no_upper: "c \<in> set (lower s) \<Longrightarrow> \<not> is_upper c"
  by (auto simp: lower_def lower_char_not_upper)


lemma access_line_apply:
  "access_line accounts line acl u =
     (case access_rule line of
        None \<Rightarrow> acl u
      | Some (operations, users, allowed) \<Rightarrow>
          if u \<in> set (expand_users accounts users)
          then Some (if allowed then acl_get acl u \<union> set (expand_operations operations)
                     else acl_get acl u - set (expand_operations operations))
          else acl u)"
  by (simp add: access_line_def fold_apply_user split: option.splits)

lemmas acl_eval = access_rule_def allow_deny_def expand_operations_def expand_users_def
  all_operations_def

lemma access_rule_all_bob_allow: "access_rule ''all : bob : allow\<newline>'' = Some (''all'', ''bob'', True)"
  by (simp add: acl_eval str_eval)

lemma access_rule_report_bob_deny: "access_rule ''report : bob : deny\<newline>'' = Some (''report'', ''bob'', False)"
  by (simp add: acl_eval str_eval)

section \<open>Rules are applied in file order\<close>

text \<open>
  C1. \<^verbatim>\<open>load_access_file\<close> folds the lines of the access file from top to bottom. An
  \<^verbatim>\<open>allow\<close> line replaces the permission set of each user it lists by its union with the
  line's operations, a \<^verbatim>\<open>deny\<close> line by its difference, and leaves the other users alone.
  So the last line that lists a user and a command decides the query for that pair. For the
  two rules \<^verbatim>\<open>all : bob : allow\<close> and \<^verbatim>\<open>report : bob : deny\<close>, bob may not report and may
  check.
\<close>

theorem rules_fold_in_order:
  "load_access_file (Some (lines @ line # rest)) accounts =
     fold (access_line accounts) rest
       (access_line accounts line (load_access_file (Some lines) accounts))
   \<and> (access_rule line = Some (operations, users, True) \<longrightarrow>
        u \<in> set (expand_users accounts users) \<longrightarrow>
        access_line accounts line acl u =
          Some (acl_get acl u \<union> set (expand_operations operations)))
   \<and> (access_rule line = Some (operations, users, False) \<longrightarrow>
        u \<in> set (expand_users accounts users) \<longrightarrow>
        access_line accounts line acl u =
          Some (acl_get acl u - set (expand_operations operations)))
   \<and> (access_rule line = Some (operations, users, allowed) \<longrightarrow>
        u \<notin> set (expand_users accounts users) \<longrightarrow>
        access_line accounts line acl u = acl u)
   \<and> (decision accounts line u c = Some a \<longrightarrow>
        (\<forall>l \<in> set rest. decision accounts l u c = None) \<longrightarrow>
        query (load_access_file (Some (lines @ line # rest)) accounts) u c = a)
   \<and> \<not> query (load_access_file
          (Some [''all : bob : allow\<newline>'', ''report : bob : deny\<newline>'']) accounts)
          ''bob'' ''report''
   \<and> query (load_access_file
          (Some [''all : bob : allow\<newline>'', ''report : bob : deny\<newline>'']) accounts)
          ''bob'' ''check''"
proof (intro conjI impI)
  show "load_access_file (Some (lines @ line # rest)) accounts =
     fold (access_line accounts) rest
       (access_line accounts line (load_access_file (Some lines) accounts))"
    by simp
next
  assume "access_rule line = Some (operations, users, True)"
    and "u \<in> set (expand_users accounts users)"
  then show "access_line accounts line acl u =
          Some (acl_get acl u \<union> set (expand_operations operations))"
    by (simp add: access_line_apply)
next
  assume "access_rule line = Some (operations, users, False)"
    and "u \<in> set (expand_users accounts users)"
  then show "access_line accounts line acl u =
          Some (acl_get acl u - set (expand_operations operations))"
    by (simp add: access_line_apply)
next
  assume "access_rule line = Some (operations, users, allowed)"
    and "u \<notin> set (expand_users accounts users)"
  then show "access_line accounts line acl u = acl u"
    by (simp add: access_line_apply)
next
  assume d: "decision accounts line u c = Some a"
    and r: "\<forall>l \<in> set rest. decision accounts l u c = None"
  have "query (load_access_file (Some (lines @ line # rest)) accounts) u c =
        query (access_line accounts line (load_access_file (Some lines) accounts)) u c"
    using r by (simp add: query_fold_untouched)
  also have "\<dots> = a"
    using d by (simp add: query_access_line)
  finally show "query (load_access_file (Some (lines @ line # rest)) accounts) u c = a" .
next
  show "\<not> query (load_access_file
          (Some [''all : bob : allow\<newline>'', ''report : bob : deny\<newline>'']) accounts)
          ''bob'' ''report''"
    by (simp add: query_access_line decision_def access_rule_all_bob_allow access_rule_report_bob_deny acl_eval str_eval)
next
  show "query (load_access_file
          (Some [''all : bob : allow\<newline>'', ''report : bob : deny\<newline>'']) accounts)
          ''bob'' ''check''"
    by (simp add: query_access_line decision_def access_rule_all_bob_allow access_rule_report_bob_deny acl_eval str_eval)
qed

theorem rules_fold_in_order_witness:
  "decision [] ''report : bob : deny\<newline>'' ''bob'' ''report'' = Some False
   \<and> query (load_access_file
        (Some [''all : bob : allow\<newline>'', ''report : bob : deny\<newline>'']) []) ''bob'' ''report''
      = False
   \<and> access_rule ''all : bob : allow\<newline>'' = Some (''all'', ''bob'', True)
   \<and> ''bob'' \<in> set (expand_users [] ''bob'')
   \<and> access_line [] ''all : bob : allow\<newline>'' Map.empty ''bob'' = Some (set all_operations)"
  using rules_fold_in_order [where lines = "[''all : bob : allow\<newline>'']"
      and line = "''report : bob : deny\<newline>''" and rest = "[]" and accounts = "[]"
      and operations = "''report''" and users = "''bob''" and allowed = False
      and u = "''bob''" and acl = Map.empty and c = "''report''" and a = False]
    rules_fold_in_order [where lines = "[]"
      and line = "''all : bob : allow\<newline>''" and rest = "[]" and accounts = "[]"
      and operations = "''all''" and users = "''bob''" and allowed = True
      and u = "''bob''" and acl = Map.empty and c = "''report''" and a = True]
  by (simp add: decision_def access_rule_all_bob_allow access_rule_report_bob_deny acl_eval str_eval acl_get_def)

section \<open>The default ACL\<close>

text \<open>
  C5. When the access file does not exist, \<^verbatim>\<open>load_access_file\<close> returns the ACL whose only
  entry gives the anonymous user the five commands check, report, ping, pong and info:
  the anonymous user may report, may not whitelist, and no other user may run any command.
\<close>

theorem default_acl:
  "load_access_file None accounts =
     [anonymous_user \<mapsto> {''check'', ''report'', ''ping'', ''pong'', ''info''}]
   \<and> (\<forall>c. query (load_access_file None accounts) anonymous_user c
          \<longleftrightarrow> c \<in> {''check'', ''report'', ''ping'', ''pong'', ''info''})
   \<and> query (load_access_file None accounts) anonymous_user ''report''
   \<and> \<not> query (load_access_file None accounts) anonymous_user ''whitelist''
   \<and> (\<forall>u c. u \<noteq> anonymous_user \<longrightarrow> \<not> query (load_access_file None accounts) u c)"
  by (simp add: query_def acl_get_def default_operations_def)

theorem default_acl_witness:
  "''bob'' \<noteq> anonymous_user
   \<and> \<not> query (load_access_file None [(''bob'', ''secret'')]) ''bob'' ''check''
   \<and> query (load_access_file None [(''bob'', ''secret'')]) anonymous_user ''report''"
  using default_acl [of "[(''bob'', ''secret'')]"]
  by (simp add: anonymous_user_def query_def acl_get_def default_operations_def)

section \<open>The keyword all in the users field\<close>

lemma access_rule_all_all: "access_rule ''all : all : allow\<newline>'' = Some (''all'', ''all'', True)"
  by (simp add: acl_eval str_eval)

lemma access_rule_check_anonymous:
  "access_rule ''check : anonymous : allow\<newline>'' = Some (''check'', ''anonymous'', True)"
  by (simp add: acl_eval str_eval)

lemma fold_access_line_unlisted:
  assumes "\<forall>l \<in> set lines. \<forall>operations users allowed.
             access_rule l = Some (operations, users, allowed) \<longrightarrow>
             u \<notin> set (expand_users accounts users)"
  shows "fold (access_line accounts) lines acl u = acl u"
  using assms
proof (induction lines arbitrary: acl)
  case Nil
  then show ?case by simp
next
  case (Cons l ls)
  have "fold (access_line accounts) (l # ls) acl u =
        fold (access_line accounts) ls (access_line accounts l acl) u"
    by simp
  also have "\<dots> = access_line accounts l acl u"
    using Cons by simp
  also have "\<dots> = acl u"
    using Cons.prems by (auto simp: access_line_apply split: option.splits)
  finally show ?case .
qed

text \<open>
  C4. A rule whose users field is the keyword \<^verbatim>\<open>all\<close> applies to the keys of the accounts
  dictionary passed to \<^verbatim>\<open>load_access_file\<close> and to no other user: loading a file that ends
  in such a rule gives each key the union or difference with what the lines before gave it
  and leaves every other user with what the lines before gave. The anonymous user is not
  among the users of \<^verbatim>\<open>all\<close> unless it is such a key: a line changes its entry only if it
  names it in its users field, or has the keyword there while the accounts hold it, and a
  file that never names it gives it no entry when the accounts do not hold it.
\<close>

theorem users_all_is_known_accounts:
  "(access_rule line = Some (operations, ''all'', allowed) \<longrightarrow>
      expand_users accounts ''all'' = map fst accounts
      \<and> (\<forall>u. u \<in> fst ` set accounts \<longrightarrow>
             access_line accounts line acl u =
               Some (if allowed then acl_get acl u \<union> set (expand_operations operations)
                     else acl_get acl u - set (expand_operations operations)))
      \<and> (\<forall>u. u \<notin> fst ` set accounts \<longrightarrow> access_line accounts line acl u = acl u)
      \<and> (anonymous_user \<notin> fst ` set accounts \<longrightarrow>
             access_line accounts line acl anonymous_user = acl anonymous_user))
   \<and> (access_line accounts line acl anonymous_user \<noteq> acl anonymous_user \<longrightarrow>
        (\<exists>operations users allowed.
           access_rule line = Some (operations, users, allowed)
           \<and> (if users = ''all'' then anonymous_user \<in> fst ` set accounts
                else anonymous_user \<in> set (split_ws users))))
   \<and> (access_rule line = Some (operations, ''all'', allowed) \<longrightarrow>
        (\<forall>u. u \<in> fst ` set accounts \<longrightarrow>
           load_access_file (Some (lines @ [line])) accounts u =
             Some (if allowed
                   then acl_get (load_access_file (Some lines) accounts) u
                          \<union> set (expand_operations operations)
                   else acl_get (load_access_file (Some lines) accounts) u
                          - set (expand_operations operations)))
        \<and> (\<forall>u. u \<notin> fst ` set accounts \<longrightarrow>
             load_access_file (Some (lines @ [line])) accounts u =
               load_access_file (Some lines) accounts u))
   \<and> (anonymous_user \<notin> fst ` set accounts \<longrightarrow>
        (\<forall>l \<in> set lines. \<forall>operations users allowed.
            access_rule l = Some (operations, users, allowed) \<longrightarrow>
            anonymous_user \<notin> set (split_ws users)) \<longrightarrow>
        load_access_file (Some lines) accounts anonymous_user = None)
   \<and> load_access_file (Some [''all : all : allow\<newline>'']) [(''bob'', ''secret'')] ''bob''
       = Some (set all_operations)
   \<and> load_access_file (Some [''all : all : allow\<newline>'']) [(''bob'', ''secret'')] anonymous_user
       = None
   \<and> load_access_file (Some [''all : all : allow\<newline>'']) [(anonymous_user, ''secret'')]
        anonymous_user = Some (set all_operations)
   \<and> load_access_file (Some [''check : anonymous : allow\<newline>'']) [(''bob'', ''secret'')]
        anonymous_user = Some {''check''}"
proof (intro conjI impI)
  show "expand_users accounts ''all'' = map fst accounts"
    by (simp add: expand_users_def)
next
  assume r: "access_rule line = Some (operations, ''all'', allowed)"
  show "\<forall>u. u \<in> fst ` set accounts \<longrightarrow>
             access_line accounts line acl u =
               Some (if allowed then acl_get acl u \<union> set (expand_operations operations)
                     else acl_get acl u - set (expand_operations operations))"
    using r by (simp add: access_line_apply expand_users_def)
  show "\<forall>u. u \<notin> fst ` set accounts \<longrightarrow> access_line accounts line acl u = acl u"
    using r by (simp add: access_line_apply expand_users_def)
  show "\<forall>u. u \<in> fst ` set accounts \<longrightarrow>
           load_access_file (Some (lines @ [line])) accounts u =
             Some (if allowed
                   then acl_get (load_access_file (Some lines) accounts) u
                          \<union> set (expand_operations operations)
                   else acl_get (load_access_file (Some lines) accounts) u
                          - set (expand_operations operations))"
    using r by (simp add: access_line_apply expand_users_def)
  show "\<forall>u. u \<notin> fst ` set accounts \<longrightarrow>
             load_access_file (Some (lines @ [line])) accounts u =
               load_access_file (Some lines) accounts u"
    using r by (simp add: access_line_apply expand_users_def)
  assume "anonymous_user \<notin> fst ` set accounts"
  then show "access_line accounts line acl anonymous_user = acl anonymous_user"
    using r by (simp add: access_line_apply expand_users_def)
next
  assume changed: "access_line accounts line acl anonymous_user \<noteq> acl anonymous_user"
  then obtain operations users allowed where
    r: "access_rule line = Some (operations, users, allowed)"
    and m: "anonymous_user \<in> set (expand_users accounts users)"
    by (auto simp: access_line_apply split: option.splits if_splits)
  from m have "if users = ''all'' then anonymous_user \<in> fst ` set accounts
                else anonymous_user \<in> set (split_ws users)"
    by (simp add: expand_users_def map_strip_split_ws split: if_splits)
  with r show "\<exists>operations users allowed.
           access_rule line = Some (operations, users, allowed)
           \<and> (if users = ''all'' then anonymous_user \<in> fst ` set accounts
                else anonymous_user \<in> set (split_ws users))"
    by blast
next
  assume k: "anonymous_user \<notin> fst ` set accounts"
    and n: "\<forall>l \<in> set lines. \<forall>operations users allowed.
            access_rule l = Some (operations, users, allowed) \<longrightarrow>
            anonymous_user \<notin> set (split_ws users)"
  have "\<forall>l \<in> set lines. \<forall>operations users allowed.
             access_rule l = Some (operations, users, allowed) \<longrightarrow>
             anonymous_user \<notin> set (expand_users accounts users)"
    using k n by (auto simp: expand_users_def map_strip_split_ws)
  then have "fold (access_line accounts) lines Map.empty anonymous_user = Map.empty anonymous_user"
    by (rule fold_access_line_unlisted)
  then show "load_access_file (Some lines) accounts anonymous_user = None"
    by simp
next
  show "load_access_file (Some [''all : all : allow\<newline>'']) [(''bob'', ''secret'')] ''bob''
       = Some (set all_operations)"
    by (simp add: access_line_apply access_rule_all_all expand_users_def expand_operations_def
        acl_get_def)
next
  show "load_access_file (Some [''all : all : allow\<newline>'']) [(''bob'', ''secret'')] anonymous_user
       = None"
    by (simp add: access_line_apply access_rule_all_all expand_users_def anonymous_user_def)
next
  show "load_access_file (Some [''all : all : allow\<newline>'']) [(anonymous_user, ''secret'')]
        anonymous_user = Some (set all_operations)"
    by (simp add: access_line_apply access_rule_all_all expand_users_def expand_operations_def
        acl_get_def)
next
  show "load_access_file (Some [''check : anonymous : allow\<newline>'']) [(''bob'', ''secret'')]
        anonymous_user = Some {''check''}"
    by (simp add: access_line_apply access_rule_check_anonymous expand_users_def
        expand_operations_def acl_get_def anonymous_user_def str_eval)
qed

theorem users_all_is_known_accounts_witness:
  "access_rule ''all : all : allow\<newline>'' = Some (''all'', ''all'', True)
   \<and> ''bob'' \<in> fst ` set [(''bob'', ''secret'')]
   \<and> anonymous_user \<notin> fst ` set [(''bob'', ''secret'')]
   \<and> load_access_file (Some ([] @ [''all : all : allow\<newline>''])) [(''bob'', ''secret'')] ''bob''
       = Some (set all_operations)
   \<and> load_access_file (Some ([] @ [''all : all : allow\<newline>''])) [(''bob'', ''secret'')]
        anonymous_user = None
   \<and> access_line [(''bob'', ''secret'')] ''all : all : allow\<newline>'' Map.empty ''bob''
       = Some (set all_operations)
   \<and> access_line [(''bob'', ''secret'')] ''all : all : allow\<newline>'' Map.empty anonymous_user
       = None"
proof -
  note t = users_all_is_known_accounts [where line = "''all : all : allow\<newline>''"
      and operations = "''all''" and allowed = True and accounts = "[(''bob'', ''secret'')]"
      and acl = Map.empty and lines = "[]"]
  have b: "''bob'' \<in> fst ` set [(''bob'', ''secret'')]" by simp
  have a: "anonymous_user \<notin> fst ` set [(''bob'', ''secret'')]"
    by (simp add: anonymous_user_def)
  note line_level = t [THEN conjunct1, rule_format, OF access_rule_all_all]
  note file_level = t [THEN conjunct2, THEN conjunct2, THEN conjunct1, rule_format,
      OF access_rule_all_all]
  have 1: "load_access_file (Some ([] @ [''all : all : allow\<newline>''])) [(''bob'', ''secret'')] ''bob''
       = Some (set all_operations)"
    using file_level [THEN conjunct1, rule_format, OF b]
    by (simp add: acl_get_def expand_operations_def)
  have 2: "load_access_file (Some ([] @ [''all : all : allow\<newline>''])) [(''bob'', ''secret'')]
        anonymous_user = None"
    using file_level [THEN conjunct2, rule_format, OF a] by simp
  have 3: "access_line [(''bob'', ''secret'')] ''all : all : allow\<newline>'' Map.empty ''bob''
       = Some (set all_operations)"
    using line_level [THEN conjunct2, THEN conjunct1, rule_format, OF b]
    by (simp add: acl_get_def expand_operations_def)
  have 4: "access_line [(''bob'', ''secret'')] ''all : all : allow\<newline>'' Map.empty anonymous_user
       = None"
    using line_level [THEN conjunct2, THEN conjunct2, THEN conjunct1, rule_format, OF a]
    by simp
  show ?thesis
    using access_rule_all_all b a 1 2 3 4 by (intro conjI) assumption+
qed

section \<open>Operation names are not checked\<close>

lemma access_rule_frobnicate:
  "access_rule ''frobnicate check : bob : allow\<newline>'' = Some (''frobnicate check'', ''bob'', True)"
  by (simp add: acl_eval str_eval)

text \<open>
  C8. When the operations field of a rule is not the keyword \<^verbatim>\<open>all\<close>, its whitespace-separated
  tokens are granted to, or revoked from, the listed users as they stand in the lower-cased
  field; none is compared with the six commands. An \<^verbatim>\<open>allow\<close> line with the token
  \<^verbatim>\<open>frobnicate\<close> puts that name into the ACL.
\<close>

theorem operations_not_validated:
  "(access_rule line = Some (operations, users, allowed) \<longrightarrow> operations \<noteq> ''all'' \<longrightarrow>
      u \<in> set (expand_users accounts users) \<longrightarrow>
      access_line accounts line acl u =
        Some (if allowed then acl_get acl u \<union> set (split_ws operations)
              else acl_get acl u - set (split_ws operations)))
   \<and> load_access_file (Some [''frobnicate check : bob : allow\<newline>'']) accounts ''bob''
       = Some {''frobnicate'', ''check''}
   \<and> ''frobnicate'' \<notin> set all_operations
   \<and> query (load_access_file (Some [''frobnicate check : bob : allow\<newline>'']) accounts)
        ''bob'' ''frobnicate''"
proof (intro conjI impI)
  assume "access_rule line = Some (operations, users, allowed)" "operations \<noteq> ''all''"
    "u \<in> set (expand_users accounts users)"
  then show "access_line accounts line acl u =
        Some (if allowed then acl_get acl u \<union> set (split_ws operations)
              else acl_get acl u - set (split_ws operations))"
    by (simp add: access_line_apply expand_operations_def map_strip_split_ws)
next
  show "load_access_file (Some [''frobnicate check : bob : allow\<newline>'']) accounts ''bob''
       = Some {''frobnicate'', ''check''}"
    by (simp add: access_line_apply access_rule_frobnicate expand_operations_def expand_users_def
        acl_get_def str_eval insert_commute)
next
  show "''frobnicate'' \<notin> set all_operations"
    by (simp add: all_operations_def)
next
  show "query (load_access_file (Some [''frobnicate check : bob : allow\<newline>'']) accounts)
        ''bob'' ''frobnicate''"
    by (simp add: query_def access_line_apply access_rule_frobnicate expand_operations_def expand_users_def
        acl_get_def str_eval)
qed

theorem operations_not_validated_witness:
  "access_rule ''frobnicate check : bob : allow\<newline>'' = Some (''frobnicate check'', ''bob'', True)
   \<and> ''frobnicate check'' \<noteq> ''all''
   \<and> ''bob'' \<in> set (expand_users [] ''bob'')
   \<and> access_line [] ''frobnicate check : bob : allow\<newline>'' Map.empty ''bob''
       = Some (set (split_ws ''frobnicate check''))"
  using operations_not_validated [where line = "''frobnicate check : bob : allow\<newline>''"
      and operations = "''frobnicate check''" and users = "''bob''" and allowed = True
      and u = "''bob''" and accounts = "[]" and acl = Map.empty]
  by (simp add: access_rule_frobnicate expand_users_def acl_get_def str_eval)

section \<open>The server's accounts file\<close>

lemma passwd_entry_cases:
  "passwd_entry line = None \<or> passwd_entry line = Some (Inl ValueError)
   \<or> (\<exists>user key. passwd_entry line = Some (Inr (user, key)))"
  by (auto simp: passwd_entry_def split: list.splits)



lemma passwd_line_step:
  "\<exists>log'. passwd_line line (accounts, log) =
     Inr (fold (\<lambda>(u, k). AList.update u k) (entries [line]) accounts, log')"
  using passwd_entry_cases [of line]
  by (auto simp: passwd_line_def)

lemma entries_Cons: "entries (l # ls) = entries [l] @ entries ls"
  by (simp split: option.splits sum.splits)

lemma for_each_passwd:
  "\<exists>log'. for_each passwd_line lines (accounts, log) =
     Inr (fold (\<lambda>(u, k). AList.update u k) (entries lines) accounts, log')"
proof (induction lines arbitrary: accounts log)
  case Nil
  then show ?case by simp
next
  case (Cons l ls)
  obtain log1 where 1: "passwd_line l (accounts, log) =
     Inr (fold (\<lambda>(u, k). AList.update u k) (entries [l]) accounts, log1)"
    using passwd_line_step by blast
  obtain log2 where 2: "for_each passwd_line ls
       (fold (\<lambda>(u, k). AList.update u k) (entries [l]) accounts, log1) =
     Inr (fold (\<lambda>(u, k). AList.update u k) (entries ls)
            (fold (\<lambda>(u, k). AList.update u k) (entries [l]) accounts), log2)"
    using Cons.IH by blast
  show ?case
    using 1 2 by (simp add: entries_Cons [of l ls] del: entries.simps)
qed

lemma load_passwd_file_entries:
  "\<exists>log. load_passwd_file (Some lines) =
     Inr (fold (\<lambda>(u, k). AList.update u k) (entries lines) [], log)"
  using for_each_passwd [of lines "[]" "[]"] by auto

lemma distinct_fold_update:
  "distinct (map fst al) \<Longrightarrow> distinct (map fst (fold (\<lambda>(u, k). AList.update u k) es al))"
  by (induction es arbitrary: al) (auto simp: distinct_update)

lemma map_of_fold_update:
  "map_of (fold (\<lambda>(u, k). AList.update u k) es al) = map_of al ++ map_of (rev es)"
  by (induction es arbitrary: al) (auto simp: update_conv' map_add_upd_left fun_eq_iff map_add_def split: option.splits)

lemma keys_fold_update:
  "fst ` set (fold (\<lambda>(u, k). AList.update u k) es al) = fst ` set al \<union> fst ` set es"
  using arg_cong [OF map_of_fold_update [of es al], of dom]
  by (simp add: dom_map_of_conv_image_fst Un_commute)

lemma set_entries:
  "set (entries lines) = {e. \<exists>l \<in> set lines. passwd_entry l = Some (Inr e)}"
  by (induction lines) (auto split: option.splits sum.splits)


lemma entries_append: "entries (xs @ ys) = entries xs @ entries ys"
  by (induction xs) (auto split: option.splits sum.splits)





lemma passwd_entry_bob_first: "passwd_entry ''bob : first\<newline>'' = Some (Inr (''bob'', ''first''))"
  by (simp add: passwd_entry_def str_eval)

lemma passwd_entry_bob_second: "passwd_entry ''bob:second\<newline>'' = Some (Inr (''bob'', ''second''))"
  by (simp add: passwd_entry_def str_eval)

text \<open>
  C9. The accounts returned by \<^verbatim>\<open>load_passwd_file\<close> hold every user name once: the names
  are those of the lines with two parts. The key of a user is the key of the last such
  line with that name, so later lines overwrite earlier ones.
\<close>

theorem last_account_line_wins:
  "(\<exists>accounts log.
      load_passwd_file (Some (lines @ line # rest)) = Inr (accounts, log)
      \<and> distinct (map fst accounts)
      \<and> fst ` set accounts =
          {user. \<exists>l \<in> set (lines @ line # rest). \<exists>key. passwd_entry l = Some (Inr (user, key))}
      \<and> (passwd_entry line = Some (Inr (user, key)) \<longrightarrow>
           (\<forall>l \<in> set rest. \<forall>key'. passwd_entry l \<noteq> Some (Inr (user, key'))) \<longrightarrow>
           map_of accounts user = Some key))
   \<and> (\<exists>log. load_passwd_file (Some [''bob : first\<newline>'', ''bob:second\<newline>''])
              = Inr ([(''bob'', ''second'')], log))"
proof (intro conjI)
  let ?all = "lines @ line # rest"
  let ?accounts = "fold (\<lambda>(u, k). AList.update u k) (entries ?all) []"
  obtain log where l: "load_passwd_file (Some ?all) = Inr (?accounts, log)"
    using load_passwd_file_entries by blast
  have d: "distinct (map fst ?accounts)"
    by (rule distinct_fold_update) simp
  have k: "fst ` set ?accounts =
      {user. \<exists>l \<in> set ?all. \<exists>key. passwd_entry l = Some (Inr (user, key))}"
    unfolding keys_fold_update set_entries by force
  have w: "map_of ?accounts user = Some key"
    if e: "passwd_entry line = Some (Inr (user, key))"
      and r: "\<forall>l \<in> set rest. \<forall>key'. passwd_entry l \<noteq> Some (Inr (user, key'))"
  proof -
    have "user \<notin> fst ` set (entries rest)"
      using r by (auto simp: set_entries)
    then have "map_of (rev (entries rest)) user = None"
      by (simp add: map_of_eq_None_iff)
    moreover have "entries ?all = entries lines @ (user, key) # entries rest"
      using e by (simp add: entries_append)
    moreover have "map_of ?accounts = map_of [] ++ map_of (rev (entries ?all))"
      by (rule map_of_fold_update)
    ultimately show ?thesis
      by (simp add: map_add_def)
  qed
  show "\<exists>accounts log.
      load_passwd_file (Some (lines @ line # rest)) = Inr (accounts, log)
      \<and> distinct (map fst accounts)
      \<and> fst ` set accounts =
          {user. \<exists>l \<in> set (lines @ line # rest). \<exists>key. passwd_entry l = Some (Inr (user, key))}
      \<and> (passwd_entry line = Some (Inr (user, key)) \<longrightarrow>
           (\<forall>l \<in> set rest. \<forall>key'. passwd_entry l \<noteq> Some (Inr (user, key'))) \<longrightarrow>
           map_of accounts user = Some key)"
    using l d k w by (intro exI conjI impI) assumption+
next
  show "\<exists>log. load_passwd_file (Some [''bob : first\<newline>'', ''bob:second\<newline>''])
              = Inr ([(''bob'', ''second'')], log)"
    using load_passwd_file_entries [of "[''bob : first\<newline>'', ''bob:second\<newline>'']"]
    by (simp add: passwd_entry_bob_first passwd_entry_bob_second)
qed

theorem last_account_line_wins_witness:
  "passwd_entry ''bob:second\<newline>'' = Some (Inr (''bob'', ''second''))
   \<and> (\<exists>accounts log.
        load_passwd_file (Some ([''bob : first\<newline>''] @ ''bob:second\<newline>'' # [])) = Inr (accounts, log)
        \<and> distinct (map fst accounts) \<and> map_of accounts ''bob'' = Some ''second'')"
proof -
  obtain accounts log where
    l: "load_passwd_file (Some ([''bob : first\<newline>''] @ ''bob:second\<newline>'' # [])) = Inr (accounts, log)"
    and d: "distinct (map fst accounts)"
    and w: "passwd_entry ''bob:second\<newline>'' = Some (Inr (''bob'', ''second'')) \<longrightarrow>
           (\<forall>l \<in> set []. \<forall>key'. passwd_entry l \<noteq> Some (Inr (''bob'', key'))) \<longrightarrow>
           map_of accounts ''bob'' = Some ''second''"
    using last_account_line_wins [where lines = "[''bob : first\<newline>'']"
      and line = "''bob:second\<newline>''" and rest = "[]" and user = "''bob''" and key = "''second''",
      THEN conjunct1]
    by blast
  from w have "map_of accounts ''bob'' = Some ''second''"
    using passwd_entry_bob_second by simp
  with l d show ?thesis
    using passwd_entry_bob_second by blast
qed

section \<open>Letter case of user names\<close>

lemma access_rule_users_lower:
  assumes "access_rule line = Some (operations, users, allowed)"
  shows "\<forall>c \<in> set users. \<not> is_upper c"
proof -
  from assms obtain part where "users = strip (lower part)"
    by (auto simp: access_rule_def split: if_splits list.splits option.splits)
  then show ?thesis
    using set_strip [of "lower part"] lower_no_upper [of _ part] by blast
qed

lemma explicit_users_lower:
  assumes "access_rule line = Some (operations, users, allowed)" and "users \<noteq> ''all''"
    and "u \<in> set (expand_users accounts users)"
  shows "\<forall>c \<in> set u. \<not> is_upper c"
proof -
  from assms(2,3) have "u \<in> set (split_ws users)"
    by (simp add: expand_users_def map_strip_split_ws)
  then have "set u \<subseteq> set users"
    using split_ws_tokens [of u users] by blast
  then show ?thesis
    using access_rule_users_lower [OF assms(1)] by blast
qed

lemma access_line_upper_name:
  assumes "\<exists>c \<in> set name. is_upper c"
    and "\<forall>operations users allowed.
           access_rule line = Some (operations, users, allowed) \<longrightarrow> users \<noteq> ''all''"
  shows "access_line accounts line acl name = acl name"
proof (cases "access_rule line")
  case None
  then show ?thesis by (simp add: access_line_apply)
next
  case (Some r)
  obtain operations users allowed where r: "r = (operations, users, allowed)"
    by (cases r)
  with Some assms(2) have "users \<noteq> ''all''" by blast
  then have "name \<notin> set (expand_users accounts users)"
    using explicit_users_lower [of line operations users allowed name accounts] Some r assms(1)
    by blast
  then show ?thesis
    using Some r by (simp add: access_line_apply)
qed

lemma fold_access_line_upper_name:
  assumes "\<exists>c \<in> set name. is_upper c"
    and "\<forall>l \<in> set lines. \<forall>operations users allowed.
           access_rule l = Some (operations, users, allowed) \<longrightarrow> users \<noteq> ''all''"
  shows "fold (access_line accounts) lines acl name = acl name"
  using assms(2)
proof (induction lines arbitrary: acl)
  case Nil
  then show ?case by simp
next
  case (Cons l ls)
  have "fold (access_line accounts) (l # ls) acl name =
        fold (access_line accounts) ls (access_line accounts l acl) name"
    by simp
  also have "\<dots> = access_line accounts l acl name"
    using Cons by simp
  also have "\<dots> = acl name"
    using Cons.prems assms(1) by (intro access_line_upper_name) simp_all
  finally show ?case .
qed

lemma passwd_entry_Bob: "passwd_entry ''Bob : secret\<newline>'' = Some (Inr (''Bob'', ''secret''))"
  by (simp add: passwd_entry_def str_eval)

lemma access_rule_all_Bob: "access_rule ''all : Bob : allow\<newline>'' = Some (''all'', ''bob'', True)"
  by (simp add: acl_eval str_eval)

text \<open>
  C10. \<^verbatim>\<open>load_passwd_file\<close> stores the user name of a line as written, stripped of
  surrounding whitespace and not lower-cased. \<^verbatim>\<open>load_access_file\<close> lower-cases the users
  field, so every user a rule lists explicitly is free of the letters A to Z. A rule that
  lists its users explicitly therefore leaves the ACL entry of a name with an upper-case
  letter as it was, and a file of such rules has no entry for it. The account \<^verbatim>\<open>Bob\<close> gets
  no entry from \<^verbatim>\<open>all : Bob : allow\<close> (the entry goes to \<^verbatim>\<open>bob\<close>) and gets one from
  \<^verbatim>\<open>all : all : allow\<close>.
\<close>

theorem explicit_users_are_lower_cased:
  "(strip line \<noteq> [] \<longrightarrow> hd line \<noteq> CHR ''#'' \<longrightarrow> split_sep CHR '':'' line = [name_field, key_field] \<longrightarrow>
      passwd_entry line = Some (Inr (strip name_field, strip key_field)))
   \<and> (access_rule rule = Some (operations, users, allowed) \<longrightarrow> users \<noteq> ''all'' \<longrightarrow>
        (\<forall>u \<in> set (expand_users accounts users). \<forall>c \<in> set u. \<not> is_upper c))
   \<and> ((\<exists>c \<in> set name. is_upper c) \<longrightarrow>
        access_rule rule = Some (operations, users, allowed) \<longrightarrow> users \<noteq> ''all'' \<longrightarrow>
        access_line accounts rule acl name = acl name)
   \<and> ((\<exists>c \<in> set name. is_upper c) \<longrightarrow>
        (\<forall>l \<in> set rules. \<forall>operations users allowed.
            access_rule l = Some (operations, users, allowed) \<longrightarrow> users \<noteq> ''all'') \<longrightarrow>
        load_access_file (Some rules) accounts name = None)
   \<and> (\<exists>log. load_passwd_file (Some [''Bob : secret\<newline>'']) = Inr ([(''Bob'', ''secret'')], log))
   \<and> load_access_file (Some [''all : Bob : allow\<newline>'']) [(''Bob'', ''secret'')] ''Bob'' = None
   \<and> load_access_file (Some [''all : Bob : allow\<newline>'']) [(''Bob'', ''secret'')] ''bob''
       = Some (set all_operations)
   \<and> load_access_file (Some [''all : all : allow\<newline>'']) [(''Bob'', ''secret'')] ''Bob''
       = Some (set all_operations)"
proof (intro conjI impI)
  assume "strip line \<noteq> []" "hd line \<noteq> CHR ''#''" "split_sep CHR '':'' line = [name_field, key_field]"
  then show "passwd_entry line = Some (Inr (strip name_field, strip key_field))"
    by (simp add: passwd_entry_def)
next
  assume "access_rule rule = Some (operations, users, allowed)" "users \<noteq> ''all''"
  then show "\<forall>u \<in> set (expand_users accounts users). \<forall>c \<in> set u. \<not> is_upper c"
    using explicit_users_lower by blast
next
  assume u: "\<exists>c \<in> set name. is_upper c"
    and r: "access_rule rule = Some (operations, users, allowed)" and n: "users \<noteq> ''all''"
  show "access_line accounts rule acl name = acl name"
    using u r n by (intro access_line_upper_name) simp_all
next
  assume "\<exists>c \<in> set name. is_upper c"
    and "\<forall>l \<in> set rules. \<forall>operations users allowed.
            access_rule l = Some (operations, users, allowed) \<longrightarrow> users \<noteq> ''all''"
  then show "load_access_file (Some rules) accounts name = None"
    using fold_access_line_upper_name [of name rules accounts Map.empty] by simp
next
  show "\<exists>log. load_passwd_file (Some [''Bob : secret\<newline>'']) = Inr ([(''Bob'', ''secret'')], log)"
    using load_passwd_file_entries [of "[''Bob : secret\<newline>'']"]
    by (simp add: passwd_entry_Bob)
next
  show "load_access_file (Some [''all : Bob : allow\<newline>'']) [(''Bob'', ''secret'')] ''Bob'' = None"
    by (simp add: access_line_apply access_rule_all_Bob expand_users_def str_eval)
next
  show "load_access_file (Some [''all : Bob : allow\<newline>'']) [(''Bob'', ''secret'')] ''bob''
       = Some (set all_operations)"
    by (simp add: access_line_apply access_rule_all_Bob expand_users_def expand_operations_def
        acl_get_def str_eval)
next
  show "load_access_file (Some [''all : all : allow\<newline>'']) [(''Bob'', ''secret'')] ''Bob''
       = Some (set all_operations)"
    by (simp add: access_line_apply access_rule_all_all expand_users_def expand_operations_def
        acl_get_def)
qed

theorem explicit_users_are_lower_cased_witness:
  "(\<exists>c \<in> set ''Bob''. is_upper c)
   \<and> access_rule ''all : Bob : allow\<newline>'' = Some (''all'', ''bob'', True)
   \<and> ''bob'' \<noteq> ''all''
   \<and> access_line [(''Bob'', ''secret'')] ''all : Bob : allow\<newline>'' Map.empty ''Bob'' = None
   \<and> load_access_file (Some [''all : Bob : allow\<newline>'']) [(''Bob'', ''secret'')] ''Bob'' = None"
proof -
  have u: "\<exists>c \<in> set ''Bob''. is_upper c"
    by (simp add: is_upper_def ascii_uppercase_def)
  have n: "''bob'' \<noteq> ''all''" by simp
  have "access_line [(''Bob'', ''secret'')] ''all : Bob : allow\<newline>'' Map.empty ''Bob''
        = Map.empty ''Bob''"
    by (rule explicit_users_are_lower_cased
          [THEN conjunct2, THEN conjunct2, THEN conjunct1, rule_format,
           OF u access_rule_all_Bob n])
  then show ?thesis
    using u n access_rule_all_Bob
      explicit_users_are_lower_cased [THEN conjunct2, THEN conjunct2, THEN conjunct2,
        THEN conjunct2, THEN conjunct2, THEN conjunct1]
    by simp
qed

section \<open>The client's accounts file\<close>

lemma py_int_abc: "py_int ''abc'' = None"
  by (simp add: py_int_def parse_nat_def digit_val_def str_eval)

lemma py_int_24441: "py_int ''24441'' = Some 24441"
  by (simp add: py_int_def parse_nat_def digit_val_def str_eval)

lemma fields_abc:
  "map strip (split_sep CHR '':'' (strip ''localhost : abc : bob : ,c0ffee\<newline>''))
     = [''localhost'', ''abc'', ''bob'', '',c0ffee'']"
  by (simp add: str_eval)

text \<open>
  C6. A line of the client's accounts file whose port field is not an integer is logged with
  a warning, but the loop body does not end there: the port stays the string it was, and when
  the key material decodes and the account can be built, the line is stored under the
  address made of the host and that string.
\<close>

theorem non_integer_port_is_not_skipped:
  assumes "strip orig_line \<noteq> []" and "take 1 (strip orig_line) \<noteq> ''#''"
    and "map strip (split_sep CHR '':'' (strip orig_line)) = [host, port_field, username, key_field]"
    and "py_int port_field = None"
    and "key_from_hexstr m key_field = Inr (salt, key)"
    and "salt_true m salt \<or> key_true m key"
    and "Account m username salt key = Inr account"
  shows "accounts_line m (lineno, orig_line) (accounts, log) =
     Inr (AList.update (host, PortStr port_field) account accounts,
          log @ [(WARN, ''account file: invalid line %d: %s'', [Number lineno, Raised ValueError])])"
  using assms by (auto simp: accounts_line_def Let_def)

theorem non_integer_port_is_not_skipped_witness:
  "load_accounts spec_account_module (Some [''localhost : abc : bob : ,c0ffee\<newline>'']) =
     Inr ([((''localhost'', PortStr ''abc''), (''bob'', '''', ''c0ffee''))],
          [(WARN, ''account file: invalid line %d: %s'', [Number 0, Raised ValueError])])"
proof -
  have "accounts_line spec_account_module (0, ''localhost : abc : bob : ,c0ffee\<newline>'') ([], []) =
     Inr (AList.update (''localhost'', PortStr ''abc'') (''bob'', '''', ''c0ffee'') [],
          [] @ [(WARN, ''account file: invalid line %d: %s'', [Number 0, Raised ValueError])])"
  proof (rule non_integer_port_is_not_skipped [where salt = "''''" and key = "''c0ffee''"])
    show "strip ''localhost : abc : bob : ,c0ffee\<newline>'' \<noteq> []"
      by (simp add: str_eval)
    show "take 1 (strip ''localhost : abc : bob : ,c0ffee\<newline>'') \<noteq> ''#''"
      by (simp add: str_eval)
    show "map strip (split_sep CHR '':'' (strip ''localhost : abc : bob : ,c0ffee\<newline>''))
     = [''localhost'', ''abc'', ''bob'', '',c0ffee'']"
      by (rule fields_abc)
    show "py_int ''abc'' = None" by (rule py_int_abc)
    show "key_from_hexstr spec_account_module '',c0ffee'' = Inr ('''', ''c0ffee'')"
      by (simp add: spec_account_module_def)
    show "salt_true spec_account_module '''' \<or> key_true spec_account_module ''c0ffee''"
      by (simp add: spec_account_module_def)
    show "Account spec_account_module ''bob'' '''' ''c0ffee'' = Inr (''bob'', '''', ''c0ffee'')"
      by (simp add: spec_account_module_def)
  qed
  then show ?thesis
    by simp
qed

text \<open>
  The neighbouring cases on the same module: an integer port is stored as an integer without
  a warning, and a line with the wrong number of parts is logged and not stored.
\<close>

lemma integer_port_line:
  "load_accounts spec_account_module (Some [''localhost : 24441 : bob : ,c0ffee\<newline>'']) =
     Inr ([((''localhost'', PortInt 24441), (''bob'', '''', ''c0ffee''))], [])"
  by (simp add: accounts_line_def py_int_24441 spec_account_module_def str_eval)

lemma wrong_parts_line:
  "load_accounts spec_account_module (Some [''localhost : 24441 : bob\<newline>'']) =
     Inr ([], [(WARN, ''account file: invalid line %d: wrong number of parts'', [Number 0])])"
  by (simp add: accounts_line_def spec_account_module_def str_eval)

section \<open>The record codec\<close>

lemma digit_val_digit_char: "d < 10 \<Longrightarrow> digit_val (digit_char d) = Some d"
proof -
  assume "d < 10"
  then have "d \<in> {0, 1, 2, 3, 4, 5, 6, 7, 8, 9}" by auto
  then show ?thesis
    by (auto simp: digit_val_def digit_char_def)
qed

lemma digit_char_not_comma: "d < 10 \<Longrightarrow> digit_char d \<noteq> CHR '',''"
proof -
  assume "d < 10"
  then have "d \<in> {0, 1, 2, 3, 4, 5, 6, 7, 8, 9}" by auto
  then show ?thesis
    by (auto simp: digit_char_def)
qed

lemma show_nat_not_empty: "show_nat n \<noteq> []"
  by (subst show_nat.simps) simp

lemma show_nat_no_comma: "CHR '','' \<notin> set (show_nat n)"
proof (induction n rule: show_nat.induct)
  case (1 n)
  show ?case
  proof (cases "n < 10")
    case True
    then have "show_nat n = [digit_char n]"
      by (subst show_nat.simps) simp
    then show ?thesis
      using True digit_char_not_comma [of n] by auto
  next
    case False
    then have "show_nat n = show_nat (n div 10) @ [digit_char (n mod 10)]"
      by (subst show_nat.simps) simp
    then show ?thesis
      using "1.IH" [OF False] digit_char_not_comma [of "n mod 10"] by auto
  qed
qed

lemma fold_digits_show_nat:
  "fold (\<lambda>c r. case (r, digit_val c) of (Some n, Some d) \<Rightarrow> Some (10 * n + d) | _ \<Rightarrow> None)
     (show_nat n) (Some 0) = Some n"
proof (induction n rule: show_nat.induct)
  case (1 n)
  show ?case
  proof (cases "n < 10")
    case True
    then have "show_nat n = [digit_char n]"
      by (subst show_nat.simps) simp
    then show ?thesis
      using True by (simp add: digit_val_digit_char)
  next
    case False
    then have "show_nat n = show_nat (n div 10) @ [digit_char (n mod 10)]"
      by (subst show_nat.simps) simp
    then show ?thesis
      using "1.IH" [OF False] by (simp add: digit_val_digit_char)
  qed
qed

lemma parse_nat_show_nat: "parse_nat (show_nat n) = Some n"
  using fold_digits_show_nat [of n] by (simp add: parse_nat_def show_nat_not_empty)

lemma split_sep_no_sep: "sep \<notin> set a \<Longrightarrow> split_sep sep a = [a]"
  by (induction a) auto

lemma split_sep_field: "sep \<notin> set a \<Longrightarrow> split_sep sep (a @ sep # rest) = a # split_sep sep rest"
  by (induction a) auto

lemma split_encode:
  assumes "CHR '','' \<notin> set (print_ts f (r_entered r))" "CHR '','' \<notin> set (print_ts f (r_updated r))"
    "CHR '','' \<notin> set (print_ts f (wl_entered r))" "CHR '','' \<notin> set (print_ts f (wl_updated r))"
  shows "split_sep CHR '','' (encode f r) =
     [''1'', show_nat (r_count r), print_ts f (r_entered r), print_ts f (r_updated r),
      show_nat (wl_count r), print_ts f (wl_entered r), print_ts f (wl_updated r)]"
  using assms
  by (simp add: encode_def split_sep_field split_sep_no_sep show_nat_no_comma)

lemma digit_char_digit: "d < 10 \<Longrightarrow> digit_char d \<in> set ''0123456789''"
proof -
  assume "d < 10"
  then have "d \<in> {0, 1, 2, 3, 4, 5, 6, 7, 8, 9}" by auto
  then show ?thesis
    by (auto simp: digit_char_def)
qed

lemma show_nat_digits: "set (show_nat n) \<subseteq> set ''0123456789''"
proof (induction n rule: show_nat.induct)
  case (1 n)
  show ?case
  proof (cases "n < 10")
    case True
    then have "show_nat n = [digit_char n]"
      by (subst show_nat.simps) simp
    then show ?thesis
      using digit_char_digit [OF True] by simp
  next
    case False
    then have "show_nat n = show_nat (n div 10) @ [digit_char (n mod 10)]"
      by (subst show_nat.simps) simp
    then show ?thesis
      using "1.IH" [OF False] digit_char_digit [of "n mod 10"] by simp
  qed
qed

lemma zero_pad_digits: "set (zero_pad w n) \<subseteq> set ''0123456789''"
  using show_nat_digits [of n] by (auto simp: zero_pad_def)

lemma zero_pad_no_sep:
  "CHR '' '' \<notin> set (zero_pad w n)" "CHR ''-'' \<notin> set (zero_pad w n)"
  "CHR '':'' \<notin> set (zero_pad w n)" "CHR ''.'' \<notin> set (zero_pad w n)"
  "CHR '','' \<notin> set (zero_pad w n)"
  using zero_pad_digits [of w n] by auto

lemma fold_digits_zeros:
  "fold (\<lambda>c r. case (r, digit_val c) of (Some n, Some d) \<Rightarrow> Some (10 * n + d) | _ \<Rightarrow> None)
     (replicate k CHR ''0'') (Some 0) = Some 0"
  by (induction k) (simp_all add: digit_val_def)

lemma parse_nat_zero_pad: "parse_nat (zero_pad w n) = Some n"
  using fold_digits_zeros [of "w - length (show_nat n)"] fold_digits_show_nat [of n]
  by (simp add: parse_nat_def zero_pad_def show_nat_not_empty)

lemma length_show_nat: "0 < w \<Longrightarrow> n < 10 ^ w \<Longrightarrow> length (show_nat n) \<le> w"
proof (induction n arbitrary: w rule: show_nat.induct)
  case (1 n)
  show ?case
  proof (cases "n < 10")
    case True
    then have "show_nat n = [digit_char n]"
      by (subst show_nat.simps) simp
    then show ?thesis using "1.prems" by simp
  next
    case False
    then have s: "show_nat n = show_nat (n div 10) @ [digit_char (n mod 10)]"
      by (subst show_nat.simps) simp
    obtain v where w: "w = Suc v" using "1.prems"(1) by (cases w) auto
    have "0 < v"
    proof (rule ccontr)
      assume "\<not> 0 < v"
      then have "w = 1" using w by simp
      then show False using "1.prems"(2) False by simp
    qed
    moreover have "n div 10 < 10 ^ v"
      using "1.prems"(2) w by (simp add: less_mult_imp_div_less mult.commute)
    ultimately have "length (show_nat (n div 10)) \<le> v"
      using "1.IH" [OF False] by blast
    then show ?thesis using s w by simp
  qed
qed

lemma length_zero_pad: "0 < w \<Longrightarrow> n < 10 ^ w \<Longrightarrow> length (zero_pad w n) = w"
  using length_show_nat [of w n] by (simp add: zero_pad_def)

lemma digits_zero_pad: "0 < w \<Longrightarrow> n < 10 ^ w \<Longrightarrow> digits w (zero_pad w n) = Some n"
  by (simp add: digits_def length_zero_pad parse_nat_zero_pad)

lemma days_in_month_le: "days_in_month y m \<le> 31"
  by (simp add: days_in_month_def)

lemma parse_datetime_str_datetime:
  assumes v: "valid_datetime d"
  shows "parse_datetime (str_datetime d) = Some d"
proof -
  define Y where "Y = zero_pad 4 (year d)"
  define M where "M = zero_pad 2 (month d)"
  define D where "D = zero_pad 2 (day d)"
  define H where "H = zero_pad 2 (hour d)"
  define MI where "MI = zero_pad 2 (minute d)"
  define S where "S = zero_pad 2 (second d)"
  define F where "F = zero_pad 6 (microsecond d)"
  define date where "date = Y @ CHR ''-'' # M @ CHR ''-'' # D"
  define hms where "hms = H @ CHR '':'' # MI @ CHR '':'' # S"
  define time where "time = hms @ (if microsecond d = 0 then [] else CHR ''.'' # F)"
  note parts = Y_def M_def D_def H_def MI_def S_def F_def
  have str: "str_datetime d = date @ CHR '' '' # time"
    by (simp add: str_datetime_def date_def time_def hms_def parts)
  have "CHR '' '' \<notin> set date" "CHR '' '' \<notin> set time"
    by (simp_all add: date_def time_def hms_def parts zero_pad_no_sep)
  then have 1: "split_sep CHR '' '' (str_datetime d) = [date, time]"
    by (simp add: str split_sep_field split_sep_no_sep)
  have 2: "split_sep CHR ''-'' date = [Y, M, D]"
    by (simp add: date_def parts split_sep_field split_sep_no_sep zero_pad_no_sep)
  have "CHR ''.'' \<notin> set hms"
    by (simp add: hms_def parts zero_pad_no_sep)
  then have 3: "split_sep CHR ''.'' time = hms # (if microsecond d = 0 then [] else [F])"
    by (simp add: time_def F_def split_sep_field split_sep_no_sep zero_pad_no_sep)
  have 4: "split_sep CHR '':'' hms = [H, MI, S]"
    by (simp add: hms_def parts split_sep_field split_sep_no_sep zero_pad_no_sep)
  have "day d \<le> 31"
    using v days_in_month_le [of "year d" "month d"] by (simp add: valid_datetime_def)
  then have f: "digits 4 Y = Some (year d)" "digits 2 M = Some (month d)"
    "digits 2 D = Some (day d)" "digits 2 H = Some (hour d)" "digits 2 MI = Some (minute d)"
    "digits 2 S = Some (second d)" "digits 6 F = Some (microsecond d)"
    using v by (simp_all add: parts digits_zero_pad valid_datetime_def)
  have "\<lparr>year = year d, month = month d, day = day d, hour = hour d, minute = minute d,
         second = second d, microsecond = microsecond d\<rparr> = d"
    by simp
  then show ?thesis
    using v
    by (cases "microsecond d = 0")
       (simp_all add: parse_datetime_def 1 2 3 4 f Let_def valid_datetime_def)
qed

lemma str_datetime_no_comma: "CHR '','' \<notin> set (str_datetime d)"
  by (simp add: str_datetime_def zero_pad_no_sep)

lemma codec_round_trip:
  assumes "parse_ts f (print_ts f (r_entered r)) = Some (r_entered r)"
    and "parse_ts f (print_ts f (r_updated r)) = Some (r_updated r)"
    and "parse_ts f (print_ts f (wl_entered r)) = Some (wl_entered r)"
    and "parse_ts f (print_ts f (wl_updated r)) = Some (wl_updated r)"
    and "CHR '','' \<notin> set (print_ts f (r_entered r))"
    and "CHR '','' \<notin> set (print_ts f (r_updated r))"
    and "CHR '','' \<notin> set (print_ts f (wl_entered r))"
    and "CHR '','' \<notin> set (print_ts f (wl_updated r))"
  shows "decode f (encode f r) = Inr r"
  using assms by (simp add: decode_def split_encode parse_nat_show_nat)

text \<open>
  C2. Decoding the encoding of a record gives the record back, for every record whose
  timestamps are \<^verbatim>\<open>datetime\<close> values, printed as the test prints them. The encoding splits
  at its commas into the version marker \<^verbatim>\<open>1\<close> followed by exactly six fields: report count,
  report entered, report updated, whitelist count, whitelist entered, whitelist updated.
\<close>

theorem record_round_trip:
  assumes "valid_record r"
  shows "decode datetime_text (encode datetime_text r) = Inr r
    \<and> split_sep CHR '','' (encode datetime_text r) =
        [''1'', show_nat (r_count r), str_datetime (r_entered r), str_datetime (r_updated r),
         show_nat (wl_count r), str_datetime (wl_entered r), str_datetime (wl_updated r)]"
proof
  show "decode datetime_text (encode datetime_text r) = Inr r"
    using assms
    by (intro codec_round_trip)
       (simp_all add: datetime_text_def valid_record_def parse_datetime_str_datetime
          str_datetime_no_comma)
  show "split_sep CHR '','' (encode datetime_text r) =
        [''1'', show_nat (r_count r), str_datetime (r_entered r), str_datetime (r_updated r),
         show_nat (wl_count r), str_datetime (wl_entered r), str_datetime (wl_updated r)]"
    using split_encode [of datetime_text r]
    by (simp add: datetime_text_def str_datetime_no_comma)
qed

lemma show_nat_small: "n < 10 \<Longrightarrow> show_nat n = [digit_char n]"
  by (subst show_nat.simps) simp

lemma show_nat_large: "10 \<le> n \<Longrightarrow> show_nat n = show_nat (n div 10) @ [digit_char (n mod 10)]"
  by (subst show_nat.simps) simp

lemma replicate_numeral: "replicate (numeral k) x = x # replicate (pred_numeral k) x"
  by (simp add: numeral_eq_Suc)

lemma valid_test_record: "valid_record test_record"
  by (simp add: valid_record_def test_record_def valid_datetime_def days_in_month_def is_leap_def)

lemma encode_test_record:
  "encode datetime_text test_record =
     ''1,24,2013-05-10 09:15:02.000123,2013-05-18 09:15:02.000123,42,2013-04-30 09:15:02.000123,2013-05-17 23:00:59''"
  by (simp add: encode_def datetime_text_def test_record_def str_datetime_def zero_pad_def
      show_nat_small show_nat_large digit_char_def replicate_numeral)

theorem record_round_trip_witness:
  "valid_record test_record
   \<and> decode datetime_text
        ''1,24,2013-05-10 09:15:02.000123,2013-05-18 09:15:02.000123,42,2013-04-30 09:15:02.000123,2013-05-17 23:00:59''
       = Inr test_record"
proof -
  have "decode datetime_text (encode datetime_text test_record) = Inr test_record"
    using record_round_trip [OF valid_test_record] by (rule conjunct1)
  then have "decode datetime_text
        ''1,24,2013-05-10 09:15:02.000123,2013-05-18 09:15:02.000123,42,2013-04-30 09:15:02.000123,2013-05-17 23:00:59''
       = Inr test_record"
    by (simp only: encode_test_record)
  with valid_test_record show ?thesis by (rule conjI)
qed

lemma decode_sample:
  "decode decimal_seconds ''1,24,1136000,1827200,42,272000,1740800'' = Inr sample_record"
  by (simp add: decode_def decimal_seconds_def sample_record_def parse_nat_def digit_val_def)

section \<open>The eviction sweep\<close>

lemma sweep_key_map_of:
  "map_of (sweep_key f now m x db) k =
     (if k = x \<and> doomed f now m db x then None else map_of db k)"
  by (auto simp: sweep_key_def doomed_def delete_conv split: option.splits sum.splits)

lemma doomed_sweep_key:
  "doomed f now m (sweep_key f now m x db) k \<longleftrightarrow> doomed f now m db k \<and> k \<noteq> x"
  by (auto simp: doomed_def sweep_key_map_of split: option.splits sum.splits)

lemma fold_sweep_key:
  "map_of (fold (sweep_key f now m) ks db) k =
     (if k \<in> set ks \<and> doomed f now m db k then None else map_of db k)"
proof (induction ks arbitrary: db)
  case Nil
  then show ?case by simp
next
  case (Cons x xs)
  have "map_of (fold (sweep_key f now m) (x # xs) db) k =
        map_of (fold (sweep_key f now m) xs (sweep_key f now m x db)) k"
    by simp
  also have "\<dots> =
     (if k \<in> set xs \<and> doomed f now m (sweep_key f now m x db) k then None
      else map_of (sweep_key f now m x db) k)"
    by (rule Cons.IH)
  also have "\<dots> = (if k \<in> set (x # xs) \<and> doomed f now m db k then None else map_of db k)"
    by (auto simp: doomed_sweep_key sweep_key_map_of)
  finally show ?case .
qed

lemma sweep_map_of:
  "map_of (sweep f now m db) k = (if doomed f now m db k then None else map_of db k)"
proof -
  have "doomed f now m db k \<Longrightarrow> k \<in> fst ` set db"
    by (auto simp: doomed_def split: option.splits dest!: map_of_SomeD intro: rev_image_eqI)
  then show ?thesis
    by (auto simp: sweep_def fold_sweep_key)
qed

text \<open>
  C3. After one pass of the eviction sweep with threshold \<open>max_age\<close>, a key whose stored
  value decodes to a record with \<open>now - max r_updated wl_updated > max_age\<close> is gone from the
  backend, and a key whose record is within the threshold still holds the value it held. A
  positive threshold makes \<^verbatim>\<open>start_reorganizing\<close> run that pass.
\<close>

theorem sweep_evicts_stale_records:
  assumes "map_of db k = Some raw" and "decode f raw = Inr r"
  shows "(now - max (r_updated r) (wl_updated r) > max_age \<longrightarrow>
            map_of (sweep f now max_age db) k = None)
       \<and> (\<not> now - max (r_updated r) (wl_updated r) > max_age \<longrightarrow>
            map_of (sweep f now max_age db) k = Some raw)
       \<and> (0 < max_age \<longrightarrow> start_reorganizing f now (Some max_age) db = sweep f now max_age db)"
  using assms by (simp add: sweep_map_of doomed_def stale_def start_reorganizing_def)

theorem sweep_evicts_stale_records_witness:
  "map_of [(''2aedaac999d71421c9ee49b9d81f627a7bc570aa'', ''1,24,1136000,1827200,42,272000,1740800'')]
       ''2aedaac999d71421c9ee49b9d81f627a7bc570aa''
     = Some ''1,24,1136000,1827200,42,272000,1740800''
   \<and> decode decimal_seconds ''1,24,1136000,1827200,42,272000,1740800'' = Inr sample_record
   \<and> 2000000 - max (r_updated sample_record) (wl_updated sample_record) > 86400
   \<and> map_of (start_reorganizing decimal_seconds 2000000 (Some 86400)
        [(''2aedaac999d71421c9ee49b9d81f627a7bc570aa'', ''1,24,1136000,1827200,42,272000,1740800'')])
       ''2aedaac999d71421c9ee49b9d81f627a7bc570aa'' = None
   \<and> \<not> 2000000 - max (r_updated sample_record) (wl_updated sample_record) > 259200
   \<and> map_of (start_reorganizing decimal_seconds 2000000 (Some 259200)
        [(''2aedaac999d71421c9ee49b9d81f627a7bc570aa'', ''1,24,1136000,1827200,42,272000,1740800'')])
       ''2aedaac999d71421c9ee49b9d81f627a7bc570aa''
     = Some ''1,24,1136000,1827200,42,272000,1740800''"
proof -
  let ?k = "''2aedaac999d71421c9ee49b9d81f627a7bc570aa''"
  let ?raw = "''1,24,1136000,1827200,42,272000,1740800''"
  have m: "map_of [(?k, ?raw)] ?k = Some ?raw" by simp
  note old = sweep_evicts_stale_records [OF m decode_sample, where now = 2000000 and max_age = 86400]
  note fresh = sweep_evicts_stale_records [OF m decode_sample, where now = 2000000 and max_age = 259200]
  have s1: "2000000 - max (r_updated sample_record) (wl_updated sample_record) > 86400"
    by (simp add: sample_record_def)
  have s2: "\<not> 2000000 - max (r_updated sample_record) (wl_updated sample_record) > 259200"
    by (simp add: sample_record_def)
  have "map_of (start_reorganizing decimal_seconds 2000000 (Some 86400) [(?k, ?raw)]) ?k = None"
    using old s1 by simp
  moreover have "map_of (start_reorganizing decimal_seconds 2000000 (Some 259200) [(?k, ?raw)]) ?k
      = Some ?raw"
    using fresh s2 by simp
  ultimately show ?thesis
    using m decode_sample s1 s2 by (intro conjI) assumption+
qed

end
